theory Spec2Isabelle
  imports Main
begin

section \<open>Data model\<close>

text \<open>
  \<^verbatim>\<open>MapArray<Value, Key = string> = [Key, Value][]\<close>: an array of key/value pairs.
  Keys are strings and are compared with \<^verbatim>\<open>===\<close>, that is by value. Collections
  that cross the boundary between host and remote are copied by the transport, so
  they are passed by value here.
\<close>

type_synonym 'v MapArray = "(string \<times> 'v) list"

text \<open>\<^verbatim>\<open>interface Delta<T> { added: MapArray<T>; removed: string[] }\<close>\<close>

record 'v Delta =
  added :: "'v MapArray"
  removed :: "string list"

text \<open>
  What \<^verbatim>\<open>getCurrent()\<close> resolves to: \<^verbatim>\<open>{ value, version }\<close>, as a pair.
  Version numbers are JavaScript numbers that only ever get incremented from 1; they
  are modelled as unbounded integers.
\<close>

type_synonym 'v Snapshot = "'v MapArray \<times> int"

text \<open>
  The listener of the remote side accepts \<^verbatim>\<open>Delta<T> | MapArray<T>\<close> and tells the
  two apart with \<^verbatim>\<open>"added" in value\<close>.
\<close>

datatype 'v payload = DeltaPayload "'v Delta" | Collection "'v MapArray"

section \<open>The stateful subscribable of the remote side\<close>

text \<open>
  The variables that the closures of \<^verbatim>\<open>makeStatefulListSubscribable\<close> share:
  \<^verbatim>\<open>current\<close>, \<^verbatim>\<open>version\<close>, \<^verbatim>\<open>listening\<close> and the \<^verbatim>\<open>Set\<close> of subscribers.
  A JavaScript \<^verbatim>\<open>Set\<close> iterates in insertion order and holds no element twice: it is
  a list to which \<open>set_add\<close> appends only an element that is not yet there.
\<close>

record ('v, 'c) reconciler =
  current :: "'v MapArray"
  version :: int
  listening :: bool
  subscribers :: "'c list"

definition set_add :: "'a \<Rightarrow> 'a list \<Rightarrow> 'a list" where
  "set_add x xs = (if x \<in> set xs then xs else xs @ [x])"

definition set_delete :: "'a \<Rightarrow> 'a list \<Rightarrow> 'a list" where
  "set_delete x xs = removeAll x xs"

text \<open>
  \<^verbatim>\<open>subscribe(subscriber) { subscribers.add(subscriber); return () => { subscribers.delete(subscriber) } }\<close>.
  The function that \<open>subscribe\<close> returns closes over the subscriber only, so it is
  \<open>unsubscribe\<close> at that subscriber.
\<close>

definition subscribe :: "'c \<Rightarrow> ('v, 'c) reconciler \<Rightarrow> ('v, 'c) reconciler" where
  "subscribe subscriber st = st\<lparr>subscribers := set_add subscriber (subscribers st)\<rparr>"

definition unsubscribe :: "'c \<Rightarrow> ('v, 'c) reconciler \<Rightarrow> ('v, 'c) reconciler" where
  "unsubscribe subscriber st = st\<lparr>subscribers := set_delete subscriber (subscribers st)\<rparr>"

text \<open>
  The part of \<^verbatim>\<open>destroy()\<close> that acts on the remote's own variables:
  \<^verbatim>\<open>listening = false; subscribers.clear()\<close>. What follows it (the teardown of the
  subscription on the host and the release) is in \<open>sys_destroy\<close> below.
\<close>

definition destroy :: "('v, 'c) reconciler \<Rightarrow> ('v, 'c) reconciler" where
  "destroy st = st\<lparr>listening := False, subscribers := []\<rparr>"

text \<open>\<^verbatim>\<open>value.added.forEach(([key, value]) => { current.push([key, value]) })\<close>\<close>

fun push_all :: "'v MapArray \<Rightarrow> 'v MapArray \<Rightarrow> 'v MapArray" where
  "push_all cur [] = cur"
| "push_all cur (e # es) = push_all (cur @ [e]) es"

text \<open>
  The listener from \<^verbatim>\<open>if (!listening) return\<close> on: the payload is applied and every
  subscriber is called with \<^verbatim>\<open>current\<close>. The second component lists the calls made,
  in order: which subscriber, with which argument.
\<close>

definition listener_apply ::
  "'v payload \<Rightarrow> ('v, 'c) reconciler \<Rightarrow> ('v, 'c) reconciler \<times> ('c \<times> 'v MapArray) list" where
  "listener_apply val st =
     (if \<not> listening st then (st, [])
      else
        let st' = (case val of
                     DeltaPayload d \<Rightarrow>
                       st\<lparr>current := filter (\<lambda>(key, _). key \<notin> set (removed d))
                                         (push_all (current st) (added d))\<rparr>
                   | Collection xs \<Rightarrow> st\<lparr>current := xs\<rparr>)
        in (st', map (\<lambda>subscriber. (subscriber, current st')) (subscribers st')))"

text \<open>
  The listener is an \<^verbatim>\<open>async\<close> function: it runs up to
  \<^verbatim>\<open>await subscription.getCurrent()\<close>, where it is suspended until the host has
  answered, or to its end when the versions agree. \<open>has_subscription\<close> is the
  truthiness of its optional third argument.
\<close>

datatype ('v, 'c) progress =
  Finished "('v, 'c) reconciler" "('c \<times> 'v MapArray) list"
| AwaitGetCurrent "('v, 'c) reconciler"

definition listener_begin ::
  "'v payload \<Rightarrow> int \<Rightarrow> bool \<Rightarrow> ('v, 'c) reconciler \<Rightarrow> ('v, 'c) progress" where
  "listener_begin val nextVersion has_subscription st =
     (let st1 = st\<lparr>version := version st + 1\<rparr> in
      if nextVersion \<noteq> version st1 \<and> has_subscription then AwaitGetCurrent st1
      else (case listener_apply val st1 of (st2, calls) \<Rightarrow> Finished st2 calls))"

text \<open>
  The rest of the listener once \<^verbatim>\<open>getCurrent()\<close> has resolved to \<open>result\<close>:
  \<^verbatim>\<open>current = result.value; version = result.version\<close>, then the common tail.
\<close>

definition listener_resume ::
  "'v Snapshot \<Rightarrow> 'v payload \<Rightarrow> ('v, 'c) reconciler
     \<Rightarrow> ('v, 'c) reconciler \<times> ('c \<times> 'v MapArray) list" where
  "listener_resume result val st =
     listener_apply val (st\<lparr>current := fst result, version := snd result\<rparr>)"

text \<open>
  One whole invocation of the listener with nothing else running while it is
  suspended. \<open>subscription\<close> is the optional third argument, given as what its
  \<^verbatim>\<open>getCurrent()\<close> resolves to. Without it the listener never awaits, so the last
  case below does not arise.
\<close>

definition listener ::
  "'v payload \<Rightarrow> int \<Rightarrow> 'v Snapshot option \<Rightarrow> ('v, 'c) reconciler
     \<Rightarrow> ('v, 'c) reconciler \<times> ('c \<times> 'v MapArray) list" where
  "listener val nextVersion subscription st =
     (case listener_begin val nextVersion (subscription \<noteq> None) st of
        Finished st' calls \<Rightarrow> (st', calls)
      | AwaitGetCurrent st1 \<Rightarrow>
          (case subscription of
             Some result \<Rightarrow> listener_resume result val st1
           | None \<Rightarrow> (st1, [])))"

section \<open>The host side: the observable source and the publisher\<close>

text \<open>
  What the code hands to \<^verbatim>\<open>retain\<close> and \<^verbatim>\<open>release\<close>: a subscriber function, or the
  publisher object itself (in \<^verbatim>\<open>makeStatefulListSubscribable\<close>). The calls to
  \<^verbatim>\<open>retain\<close>, \<^verbatim>\<open>release\<close>, the source's \<^verbatim>\<open>subscribe\<close> and the \<^verbatim>\<open>unsubscribe\<close>
  it returned are recorded in the order in which they are made.
\<close>

datatype 'c ref = Fn 'c | PublisherObject

datatype 'c effect =
  Retain "'c ref" | Release "'c ref" | SourceSubscribe nat | SourceUnsubscribe nat

text \<open>
  The host: the source (\<^verbatim>\<open>createSyncSubscribable\<close>: its \<^verbatim>\<open>current\<close> and its \<^verbatim>\<open>Set\<close>
  of listeners) and the variables of the closure that
  \<^verbatim>\<open>createMapArrayRemoteSubscribable\<close> creates (\<^verbatim>\<open>initial\<close>, \<^verbatim>\<open>current\<close>,
  \<^verbatim>\<open>version\<close>). Every listener of the source is an arrow function made by the
  publisher's \<^verbatim>\<open>subscribe\<close>; two calls of \<^verbatim>\<open>subscribe\<close> make two functions, also for
  the same subscriber, so each one carries the number \<open>src_fresh\<close> had when it was
  made, next to the subscriber it forwards to.
\<close>

record ('v, 'c) host =
  src_current :: "'v MapArray"
  src_subscribers :: "(nat \<times> 'c) list"
  src_fresh :: nat
  pub_initial :: "'v MapArray"
  pub_current :: "'v MapArray"
  pub_version :: int
  effects :: "'c effect list"

text \<open>One call of a subscriber by the publisher: \<^verbatim>\<open>subscriber(delta, { version })\<close>.\<close>

record ('v, 'c) emission =
  em_subscriber :: 'c
  em_delta :: "'v Delta"
  em_version :: int

text \<open>
  \<^verbatim>\<open>const initial = subscription.current; const current = initial; let version = 1\<close>,
  over a source that holds \<open>source_current\<close> and has no listener yet.
\<close>

definition createMapArrayRemoteSubscribable :: "'v MapArray \<Rightarrow> ('v, 'c) host" where
  "createMapArrayRemoteSubscribable source_current =
     \<lparr>src_current = source_current, src_subscribers = [], src_fresh = 0,
      pub_initial = source_current, pub_current = source_current, pub_version = 1,
      effects = []\<rparr>"

text \<open>
  The delta of the arrow function: \<^verbatim>\<open>next.filter(([nextkey]) => !current.some(...))\<close>
  and \<^verbatim>\<open>current.filter(([currentKey]) => !next.some(...)).map(([key]) => key)\<close>.
\<close>

definition compute_delta :: "'v MapArray \<Rightarrow> 'v MapArray \<Rightarrow> 'v Delta" where
  "compute_delta cur nxt =
     \<lparr>added = filter (\<lambda>(nextKey, _). \<not> list_ex (\<lambda>(currentKey, _). currentKey = nextKey) cur) nxt,
      removed = map fst
        (filter (\<lambda>(currentKey, _). \<not> list_ex (\<lambda>(nextKey, _). currentKey = nextKey) nxt) cur)\<rparr>"

text \<open>
  The arrow function that the publisher registers with the source,
  \<^verbatim>\<open>(next = subscription.current) => { version++; ...; subscriber(delta, { version }) }\<close>.
  Called without an argument it reads the source's \<^verbatim>\<open>current\<close>. The \<^verbatim>\<open>current\<close> it
  compares with is the constant of the publisher's closure.
\<close>

definition emit ::
  "'c \<Rightarrow> 'v MapArray option \<Rightarrow> ('v, 'c) host \<Rightarrow> ('v, 'c) host \<times> ('v, 'c) emission" where
  "emit subscriber next_arg h =
     (let nxt = (case next_arg of Some n \<Rightarrow> n | None \<Rightarrow> src_current h);
          h' = h\<lparr>pub_version := pub_version h + 1\<rparr>
      in (h', \<lparr>em_subscriber = subscriber,
                em_delta = compute_delta (pub_current h') nxt,
                em_version = pub_version h'\<rparr>))"

text \<open>
  \<^verbatim>\<open>update(value) { current = value; for (const subscriber of subscribers) subscriber(value) }\<close>
  of the source: the collection is replaced by a new one, no array is changed in
  place. The callbacks are taken not to call back into the source.
\<close>

fun notify ::
  "(nat \<times> 'c) list \<Rightarrow> 'v MapArray \<Rightarrow> ('v, 'c) host \<Rightarrow> ('v, 'c) host \<times> ('v, 'c) emission list" where
  "notify [] val h = (h, [])"
| "notify ((w, subscriber) # ws) val h =
     (case emit subscriber (Some val) h of
        (h1, e) \<Rightarrow> (case notify ws val h1 of (h2, es) \<Rightarrow> (h2, e # es)))"

definition update ::
  "'v MapArray \<Rightarrow> ('v, 'c) host \<Rightarrow> ('v, 'c) host \<times> ('v, 'c) emission list" where
  "update val h = notify (src_subscribers h) val (h\<lparr>src_current := val\<rparr>)"

text \<open>
  The publisher's \<^verbatim>\<open>subscribe(subscriber)\<close>: \<^verbatim>\<open>retain(subscriber)\<close>, then the arrow
  function is added to the source's listeners. It returns \<^verbatim>\<open>[teardown, { version }]\<close>;
  \<^verbatim>\<open>teardown\<close> closes over the source's \<^verbatim>\<open>unsubscribe\<close> for this arrow function and
  over the subscriber, so it is given as that pair.
\<close>

definition pub_subscribe ::
  "'c \<Rightarrow> ('v, 'c) host \<Rightarrow> ('v, 'c) host \<times> ((nat \<times> 'c) \<times> int)" where
  "pub_subscribe subscriber h =
     (let w = src_fresh h;
          h1 = h\<lparr>effects := effects h @ [Retain (Fn subscriber)]\<rparr>;
          h2 = h1\<lparr>src_subscribers := src_subscribers h1 @ [(w, subscriber)],
                  src_fresh := Suc w,
                  effects := effects h1 @ [SourceSubscribe w]\<rparr>
      in (h2, ((w, subscriber), pub_version h2)))"

text \<open>
  \<^verbatim>\<open>const teardown = () => { unsubscribe(); release(subscriber) }\<close>, where the
  source's \<^verbatim>\<open>unsubscribe\<close> is \<^verbatim>\<open>subscribers.delete\<close> of the arrow function.
\<close>

definition teardown :: "nat \<times> 'c \<Rightarrow> ('v, 'c) host \<Rightarrow> ('v, 'c) host" where
  "teardown t h =
     (let h1 = h\<lparr>src_subscribers := filter (\<lambda>(w, _). w \<noteq> fst t) (src_subscribers h),
                 effects := effects h @ [SourceUnsubscribe (fst t)]\<rparr>
      in h1\<lparr>effects := effects h1 @ [Release (Fn (snd t))]\<rparr>)"

text \<open>\<^verbatim>\<open>async getCurrent() { return { value: subscription.current, version } }\<close>\<close>

definition getCurrent :: "('v, 'c) host \<Rightarrow> 'v Snapshot" where
  "getCurrent h = (src_current h, pub_version h)"

text \<open>
  A history of the host: changes of the collection, subscriptions and teardowns, in
  any order. \<open>run\<close> returns the host after it and every call of a subscriber made on
  the way.
\<close>

datatype ('v, 'c) event = Change "'v MapArray" | Subscribe 'c | Teardown "nat \<times> 'c"

fun run ::
  "('v, 'c) event list \<Rightarrow> ('v, 'c) host \<Rightarrow> ('v, 'c) host \<times> ('v, 'c) emission list" where
  "run [] h = (h, [])"
| "run (Change val # evs) h =
     (case update val h of (h1, es) \<Rightarrow> (case run evs h1 of (h2, es') \<Rightarrow> (h2, es @ es')))"
| "run (Subscribe c # evs) h = run evs (fst (pub_subscribe c h))"
| "run (Teardown t # evs) h = run evs (teardown t h)"

section \<open>Host and remote together\<close>

text \<open>
  The subscribers of the publisher: the arrow function
  \<^verbatim>\<open>(delta, options) => listener(delta, options, subscription)\<close> of a stateful
  subscribable, or any other function.
\<close>

datatype host_fn = RemoteListener | OtherFn nat

record ('v, 'd) system =
  host :: "('v, host_fn) host"
  remote :: "('v, 'd) reconciler"
  subscriptionResult :: "(nat \<times> host_fn) \<times> int"
  remote_effects :: "host_fn effect list"

text \<open>
  \<^verbatim>\<open>makeStatefulListSubscribable(subscription)\<close>, with no change of the host while it
  awaits \<^verbatim>\<open>getCurrent()\<close>.
\<close>

definition makeStatefulListSubscribable :: "('v, host_fn) host \<Rightarrow> ('v, 'd) system" where
  "makeStatefulListSubscribable h =
     (let st0 = \<lparr>current = pub_initial h, version = 1, listening = True, subscribers = []\<rparr>;
          latest = getCurrent h;
          st1 = st0\<lparr>current := fst latest, version := snd latest\<rparr>
      in (case pub_subscribe RemoteListener h of
            (h', res) \<Rightarrow>
              \<lparr>host = h', remote = st1, subscriptionResult = res,
               remote_effects = [Retain PublisherObject]\<rparr>))"

text \<open>
  The emissions of one change reach the remote in the order in which they were made,
  none lost; a \<^verbatim>\<open>getCurrent()\<close> that the listener makes is answered with \<open>snap\<close>.
\<close>

fun deliver ::
  "('v, host_fn) emission list \<Rightarrow> 'v Snapshot \<Rightarrow> ('v, 'd) reconciler
     \<Rightarrow> ('v, 'd) reconciler \<times> ('d \<times> 'v MapArray) list" where
  "deliver [] snap st = (st, [])"
| "deliver (e # es) snap st =
     (if em_subscriber e = RemoteListener then
        (case listener (DeltaPayload (em_delta e)) (em_version e) (Some snap) st of
           (st1, calls1) \<Rightarrow>
             (case deliver es snap st1 of (st2, calls2) \<Rightarrow> (st2, calls1 @ calls2)))
      else deliver es snap st)"

definition sys_update :: "'v MapArray \<Rightarrow> ('v, 'd) system \<Rightarrow> ('v, 'd) system" where
  "sys_update val s =
     (case update val (host s) of
        (h', ems) \<Rightarrow>
          s\<lparr>host := h', remote := fst (deliver ems (getCurrent h') (remote s))\<rparr>)"

text \<open>
  \<^verbatim>\<open>destroy()\<close> as a whole: the remote's variables, then
  \<^verbatim>\<open>const [unsubscribe] = await subscriptionResult; unsubscribe(); release(subscription)\<close>.
\<close>

definition sys_destroy :: "('v, 'd) system \<Rightarrow> ('v, 'd) system" where
  "sys_destroy s =
     s\<lparr>remote := destroy (remote s),
       host := teardown (fst (subscriptionResult s)) (host s),
       remote_effects := remote_effects s @ [Release PublisherObject]\<rparr>"

section \<open>Histories of the host\<close>

text \<open>The collections that a history installs in the source, in order.\<close>

fun changes :: "('v, 'c) event list \<Rightarrow> 'v MapArray list" where
  "changes [] = []"
| "changes (Change val # evs) = val # changes evs"
| "changes (Subscribe c # evs) = changes evs"
| "changes (Teardown t # evs) = changes evs"

section \<open>Basic facts\<close>

lemma push_all_append: "push_all cur es = cur @ es"
  by (induction es arbitrary: cur) simp_all

lemma set_set_add: "set (set_add x xs) = insert x (set xs)"
  by (auto simp: set_add_def)

lemma set_set_delete: "set (set_delete x xs) = set xs - {x}"
  by (simp add: set_delete_def)

lemma distinct_set_add: "distinct (set_add x xs) = distinct xs"
  by (simp add: set_add_def)

lemma distinct_set_delete: "distinct (set_delete x xs) = distinct (removeAll x xs)"
  by (simp add: set_delete_def)

subsection \<open>The publisher\<close>





lemma emit_fields:
  "pub_version (fst (emit c a h)) = pub_version h + 1"
  "pub_current (fst (emit c a h)) = pub_current h"
  "src_current (fst (emit c a h)) = src_current h"
  "src_subscribers (fst (emit c a h)) = src_subscribers h"
  "src_fresh (fst (emit c a h)) = src_fresh h"
  "effects (fst (emit c a h)) = effects h"
  by (simp_all add: emit_def Let_def)

lemma emit_emission:
  "snd (emit c (Some val) h) =
     \<lparr>em_subscriber = c, em_delta = compute_delta (pub_current h) val,
      em_version = pub_version h + 1\<rparr>"
  by (simp add: emit_def Let_def)

lemma notify_host:
  "fst (notify ws val h) = h\<lparr>pub_version := pub_version h + int (length ws)\<rparr>"
proof (induction ws arbitrary: h)
  case Nil
  then show ?case by simp
next
  case (Cons a ws)
  obtain w c where a: "a = (w, c)" by (cases a)
  show ?case
    using Cons.IH [of "fst (emit c (Some val) h)"]
    by (simp add: a split_beta emit_def Let_def)
qed

lemma notify_emissions:
  "snd (notify ws val h) =
     map (\<lambda>i. \<lparr>em_subscriber = snd (ws ! i), em_delta = compute_delta (pub_current h) val,
                em_version = pub_version h + 1 + int i\<rparr>) [0..<length ws]"
proof (induction ws arbitrary: h)
  case Nil
  then show ?case by simp
next
  case (Cons a ws)
  obtain w c where a: "a = (w, c)" by (cases a)
  have "[0..<length (a # ws)] = 0 # map Suc [0..<length ws]"
    by (simp add: upt_conv_Cons map_Suc_upt del: upt_Suc)
  then show ?case
    using Cons.IH [of "fst (emit c (Some val) h)"]
    by (simp add: a split_beta emit_fields emit_emission del: upt_Suc)
qed

lemma update_host:
  "fst (update val h) =
     h\<lparr>src_current := val, pub_version := pub_version h + int (length (src_subscribers h))\<rparr>"
  by (simp add: update_def notify_host)

lemma update_emissions:
  "snd (update val h) =
     map (\<lambda>i. \<lparr>em_subscriber = snd (src_subscribers h ! i),
                em_delta = compute_delta (pub_current h) val,
                em_version = pub_version h + 1 + int i\<rparr>) [0..<length (src_subscribers h)]"
  by (simp add: update_def notify_emissions)

lemma update_versions:
  "map em_version (snd (update val h)) =
     map (\<lambda>i. pub_version h + 1 + int i) [0..<length (src_subscribers h)]"
  by (simp add: update_emissions comp_def)

lemma update_targets: "map em_subscriber (snd (update val h)) = map snd (src_subscribers h)"
  by (rule nth_equalityI) (simp_all add: update_emissions)

lemma update_deltas:
  "e \<in> set (snd (update val h)) \<Longrightarrow> em_delta e = compute_delta (pub_current h) val"
  by (auto simp: update_emissions)

lemma pub_subscribe_host:
  "fst (pub_subscribe c h) =
     h\<lparr>src_subscribers := src_subscribers h @ [(src_fresh h, c)], src_fresh := Suc (src_fresh h),
       effects := effects h @ [Retain (Fn c), SourceSubscribe (src_fresh h)]\<rparr>"
  by (simp add: pub_subscribe_def Let_def)

lemma teardown_host:
  "teardown t h =
     h\<lparr>src_subscribers := filter (\<lambda>(w, _). w \<noteq> fst t) (src_subscribers h),
       effects := effects h @ [SourceUnsubscribe (fst t), Release (Fn (snd t))]\<rparr>"
  by (simp add: teardown_def Let_def)

lemma history_induct [case_names Nil Change Subscribe Teardown]:
  assumes "\<And>h. P [] h"
    and "\<And>val evs h. P evs (fst (update val h)) \<Longrightarrow> P (Change val # evs) h"
    and "\<And>c evs h. P evs (fst (pub_subscribe c h)) \<Longrightarrow> P (Subscribe c # evs) h"
    and "\<And>t evs h. P evs (teardown t h) \<Longrightarrow> P (Teardown t # evs) h"
  shows "P evs h"
proof (induction evs arbitrary: h)
  case Nil
  show ?case by (rule assms(1))
next
  case (Cons ev evs)
  show ?case
    by (cases ev) (simp_all add: assms(2-4) Cons.IH)
qed


lemma run_pub_current: "pub_current (fst (run evs h)) = pub_current h"
  by (induction evs h rule: history_induct)
    (simp_all add: split_beta update_host pub_subscribe_host teardown_host)

lemma run_deltas:
  "e \<in> set (snd (run evs h)) \<Longrightarrow>
   \<exists>val \<in> set (changes evs). em_delta e = compute_delta (pub_current h) val"
proof (induction evs h rule: history_induct)
  case (Change val evs h)
  then show ?case
    by (auto simp: split_beta update_host dest: update_deltas)
qed (simp_all add: pub_subscribe_host teardown_host)


lemma run_versions_bounds:
  "e \<in> set (snd (run evs h)) \<Longrightarrow> pub_version h < em_version e"
  by (induction evs h rule: history_induct)
    (auto simp: split_beta update_host update_emissions pub_subscribe_host teardown_host)

lemma update_versions_upper:
  "e \<in> set (snd (update val h)) \<Longrightarrow> em_version e \<le> pub_version (fst (update val h))"
  by (auto simp: update_host update_emissions)

lemma update_sorted: "sorted_wrt (<) (map em_version (snd (update val h)))"
  by (simp add: update_versions sorted_wrt_map sorted_wrt_iff_nth_less)

lemma run_sorted: "sorted_wrt (<) (map em_version (snd (run evs h)))"
proof (induction evs h rule: history_induct)
  case (Change val evs h)
  have "em_version a < em_version b"
    if "a \<in> set (snd (update val h))" and "b \<in> set (snd (run evs (fst (update val h))))"
    for a b
    using update_versions_upper [OF that(1)] run_versions_bounds [OF that(2)] by simp
  with Change update_sorted [of val h] show ?case
    by (auto simp: split_beta sorted_wrt_append)
qed simp_all




lemma run_sorted_filter:
  "sorted_wrt (<) (map em_version (filter P (snd (run evs h))))"
  using run_sorted [of evs h] by (simp add: sorted_wrt_map sorted_wrt_filter)

lemma run_sole_subscriber:
  "src_subscribers h = [(w, c)] \<Longrightarrow>
   map em_version (snd (run (map Change vals) h)) =
     map (\<lambda>i. pub_version h + 1 + int i) [0..<length vals]"
proof (induction vals arbitrary: h)
  case Nil
  then show ?case by simp
next
  case (Cons v vals)
  let ?h' = "fst (update v h)"
  have up: "[0..<length (v # vals)] = 0 # map Suc [0..<length vals]"
    by (simp add: upt_conv_Cons map_Suc_upt del: upt_Suc)
  have subs: "src_subscribers ?h' = [(w, c)]" and ver: "pub_version ?h' = pub_version h + 1"
    using Cons.prems by (simp_all add: update_host)
  have first: "map em_version (snd (update v h)) = [pub_version h + 1]"
    using Cons.prems by (simp add: update_versions)
  have "map em_version (snd (run (map Change (v # vals)) h)) =
          map em_version (snd (update v h)) @ map em_version (snd (run (map Change vals) ?h'))"
    by (simp add: split_beta)
  also have "\<dots> = (pub_version h + 1) # map (\<lambda>i. pub_version h + 1 + 1 + int i) [0..<length vals]"
    by (simp only: first Cons.IH [OF subs] ver append_Cons append_Nil)
  also have "\<dots> = map (\<lambda>i. pub_version h + 1 + int i) [0..<length (v # vals)]"
    by (simp only: up) (simp add: comp_def)
  finally show ?case .
qed

section \<open>The remote side: subscriptions and the listener\<close>

text \<open>
  C10. Subscribing a callback and calling the function that \<open>subscribe\<close> returned
  change neither \<open>current\<close>, nor the version counter, nor the \<open>listening\<close> flag.
  Subscribing registers the callback and keeps every other one; unsubscribing removes
  that callback and no other, keeps the others in their order, and doing it a second
  time changes nothing.
\<close>

theorem subscription_management_frame:
  "current (subscribe cb st) = current st
   \<and> version (subscribe cb st) = version st
   \<and> listening (subscribe cb st) = listening st
   \<and> current (unsubscribe cb st) = current st
   \<and> version (unsubscribe cb st) = version st
   \<and> listening (unsubscribe cb st) = listening st
   \<and> set (subscribers (subscribe cb st)) = insert cb (set (subscribers st))
   \<and> set (subscribers (unsubscribe cb st)) = set (subscribers st) - {cb}
   \<and> subscribers (unsubscribe cb st) = filter (\<lambda>c. c \<noteq> cb) (subscribers st)
   \<and> unsubscribe cb (unsubscribe cb st) = unsubscribe cb st"
  by (auto simp: subscribe_def unsubscribe_def set_set_add set_delete_def
      removeAll_filter_not_eq intro: filter_cong)

text \<open>
  C7. When the listener runs with a delta while \<open>listening\<close> holds and the incoming
  version is the local one plus 1, the new \<open>current\<close> is the old one with the added
  entries appended and then the entries with a removed key filtered out, the local
  version is the incoming one, and each registered subscriber is called once, in
  order, with the whole new collection.
\<close>

theorem listener_in_sync_delta:
  assumes "listening st" and "nextVersion = version st + 1"
  shows "listener (DeltaPayload d) nextVersion subscription st =
           (st\<lparr>current := filter (\<lambda>(key, _). key \<notin> set (removed d)) (current st @ added d),
               version := nextVersion\<rparr>,
            map (\<lambda>subscriber. (subscriber,
                   filter (\<lambda>(key, _). key \<notin> set (removed d)) (current st @ added d)))
              (subscribers st))"
  using assms
  by (simp add: listener_def listener_begin_def listener_apply_def push_all_append)

text \<open>
  The theorem at the update of the collection with the entries 1 and 2 to the one
  with the entries 1 and 3, for a remote with two subscribers.
\<close>

theorem listener_in_sync_delta_witness:
  "listener (DeltaPayload \<lparr>added = [(''3'', ''Third'')], removed = [''2'']\<rparr>) 2 (Some ([], 7))
     \<lparr>current = [(''1'', ''First''), (''2'', ''Second'')], version = 1, listening = True,
      subscribers = [0::nat, 1]\<rparr>
   = (\<lparr>current = [(''1'', ''First''), (''3'', ''Third'')], version = 2, listening = True,
       subscribers = [0, 1]\<rparr>,
      [(0, [(''1'', ''First''), (''3'', ''Third'')]), (1, [(''1'', ''First''), (''3'', ''Third'')])])"
  using listener_in_sync_delta
    [of "\<lparr>current = [(''1'', ''First''), (''2'', ''Second'')], version = 1, listening = True,
          subscribers = [0::nat, 1]\<rparr>" 2
        "\<lparr>added = [(''3'', ''Third'')], removed = [''2'']\<rparr>" "Some ([], 7)"]
  by simp

lemma listener_desync:
  "nextVersion \<noteq> version st + 1 \<Longrightarrow>
   listener val nextVersion (Some result) st =
     listener_apply val (st\<lparr>current := fst result, version := snd result\<rparr>)"
  by (simp add: listener_def listener_begin_def listener_resume_def)

lemma listener_after_destroy_calls: "snd (listener val nextVersion subscription (destroy st)) = []"
  by (cases subscription)
    (simp_all add: listener_def listener_begin_def listener_resume_def listener_apply_def
      destroy_def Let_def)

lemma listener_after_destroy_in_sync:
  "nextVersion = version st + 1 \<Longrightarrow>
   current (fst (listener val nextVersion subscription (destroy st))) = current st"
  by (simp add: listener_def listener_begin_def listener_apply_def destroy_def)

text \<open>
  C3. The listener at a version mismatch, evaluated. The remote holds the empty
  collection at version 3 and receives, late, the delta of version 2 that adds the
  key \<open>a\<close>; the local counter becomes 4, which is not 2, and \<open>getCurrent()\<close> answers
  with the empty collection at version 3. The version adopted is 3, but \<open>current\<close>
  is not the collection that \<open>getCurrent()\<close> returned: the listener goes on to the
  common tail and applies the delta to it, so \<open>current\<close> holds the entry of \<open>a\<close>,
  and the subscriber is called with that.
\<close>

theorem desync_applies_delta_after_resync:
  "listener (DeltaPayload \<lparr>added = [(''a'', ''A'')], removed = []\<rparr>) 2 (Some ([], 3))
     \<lparr>current = [], version = 3, listening = True, subscribers = [0::nat]\<rparr>
   = (\<lparr>current = [(''a'', ''A'')], version = 3, listening = True, subscribers = [0]\<rparr>,
      [(0, [(''a'', ''A'')])])"
  by (simp add: listener_def listener_begin_def listener_resume_def listener_apply_def)

text \<open>
  C6. The listener after \<open>destroy\<close>, evaluated at a version mismatch. The remote held
  one entry at version 2 when it was destroyed. A delta of version 5 that is delivered
  afterwards calls no subscriber, but the check of \<open>listening\<close> comes after the
  resynchronisation: \<open>current\<close> is overwritten with the collection that
  \<open>getCurrent()\<close> returned. The same happens to an invocation that was suspended at
  \<open>getCurrent()\<close> when \<open>destroy\<close> ran and is resumed after it.
\<close>

theorem destroyed_listener_overwrites_current:
  "listener (DeltaPayload \<lparr>added = [], removed = []\<rparr>) 5 (Some ([(''9'', ''Nine'')], 5))
     (destroy \<lparr>current = [(''1'', ''First'')], version = 2, listening = True,
               subscribers = [0::nat]\<rparr>)
   = (\<lparr>current = [(''9'', ''Nine'')], version = 5, listening = False, subscribers = []\<rparr>, [])
   \<and> listener_begin (DeltaPayload \<lparr>added = [], removed = []\<rparr>) 5 True
       \<lparr>current = [(''1'', ''First'')], version = 2, listening = True, subscribers = [0::nat]\<rparr>
     = AwaitGetCurrent
         \<lparr>current = [(''1'', ''First'')], version = 3, listening = True, subscribers = [0]\<rparr>
   \<and> listener_resume ([(''9'', ''Nine'')], 5) (DeltaPayload \<lparr>added = [], removed = []\<rparr>)
       (destroy \<lparr>current = [(''1'', ''First'')], version = 3, listening = True,
                 subscribers = [0::nat]\<rparr>)
     = (\<lparr>current = [(''9'', ''Nine'')], version = 5, listening = False, subscribers = []\<rparr>, [])"
  by (simp add: listener_def listener_begin_def listener_resume_def listener_apply_def
      destroy_def)

section \<open>The host side: deltas, versions, snapshots and teardown\<close>

text \<open>
  C2. The deltas of two successive changes, evaluated. The publisher is made over the
  one entry \<open>x\<close> and has one subscriber; the collection becomes empty and then holds
  \<open>x\<close> again. The second change goes from the empty collection to the one with \<open>x\<close>,
  so its delta from the value before the change adds \<open>x\<close> (second conjunct). The
  delta that is emitted adds nothing: it is computed against the constant \<open>current\<close>
  of the closure, which is the collection at construction and holds \<open>x\<close>.
\<close>

theorem second_delta_against_initial:
  "snd (update [(''x'', ''First'')] (fst (update []
      (fst (pub_subscribe (0::nat) (createMapArrayRemoteSubscribable [(''x'', ''First'')]))))))
     = [\<lparr>em_subscriber = 0, em_delta = \<lparr>added = [], removed = []\<rparr>, em_version = 3\<rparr>]
   \<and> compute_delta [] [(''x'', ''First'')] = \<lparr>added = [(''x'', ''First'')], removed = []\<rparr>"
  by (simp add: createMapArrayRemoteSubscribable_def
      pub_subscribe_def update_def emit_def compute_delta_def Let_def)




text \<open>
  How the counter moves in the model: it starts at 1 and is incremented in the arrow
  function of each subscription, once for every call of a subscriber. One change
  advances it by the number of subscribers registered at that moment, and the calls
  made for one change carry the consecutive versions that follow the old counter, in
  the order of registration. The versions delivered to any one subscriber increase
  strictly; for a subscriber that is registered before the first change and stays the
  only one, they are 2, 3, 4, ..., one per change.
\<close>

lemma version_counts_emissions:
  fixes h :: "('v, 'c) host" and c :: 'c
  shows "pub_version (createMapArrayRemoteSubscribable src :: ('v, 'c) host) = 1
   \<and> pub_version (fst (update val h)) = pub_version h + int (length (src_subscribers h))
   \<and> map em_version (snd (update val h)) =
       map (\<lambda>i. pub_version h + 1 + int i) [0..<length (src_subscribers h)]
   \<and> map em_subscriber (snd (update val h)) = map snd (src_subscribers h)
   \<and> sorted_wrt (<) (map em_version (filter (\<lambda>e. em_subscriber e = c) (snd (run evs h))))
   \<and> map em_version (snd (run (Subscribe c # map Change vals)
         (createMapArrayRemoteSubscribable src))) = map (\<lambda>i. 2 + int i) [0..<length vals]"
proof -
  let ?h0 = "createMapArrayRemoteSubscribable src :: ('v, 'c) host"
  have one: "pub_version ?h0 = 1"
    by (simp add: createMapArrayRemoteSubscribable_def)
  have sole: "src_subscribers (fst (pub_subscribe c ?h0)) = [(0, c)]"
    and v: "pub_version (fst (pub_subscribe c ?h0)) = 1"
    by (simp_all add: pub_subscribe_host createMapArrayRemoteSubscribable_def)
  have "map em_version (snd (run (Subscribe c # map Change vals) ?h0)) =
          map (\<lambda>i. 2 + int i) [0..<length vals]"
    using run_sole_subscriber [OF sole, of vals] by (simp add: v)
  with one show ?thesis
    by (simp add: update_host update_versions update_targets run_sorted_filter)
qed

text \<open>
  C5. The version counter with two subscribers, evaluated. Both are registered on a
  publisher made over the empty collection, which leaves the counter at 1; then the
  collection changes twice. The first change alone takes the counter from 1 to 3:
  the first subscriber is called with the versions 2 and 4, the second one with 3
  and 5, so neither receives consecutive versions.
\<close>

theorem version_advances_per_subscriber:
  "snd (run [Subscribe (0::nat), Subscribe 1, Change [(''a'', ''A'')], Change []]
      (createMapArrayRemoteSubscribable []))
     = [\<lparr>em_subscriber = 0, em_delta = \<lparr>added = [(''a'', ''A'')], removed = []\<rparr>, em_version = 2\<rparr>,
        \<lparr>em_subscriber = 1, em_delta = \<lparr>added = [(''a'', ''A'')], removed = []\<rparr>, em_version = 3\<rparr>,
        \<lparr>em_subscriber = 0, em_delta = \<lparr>added = [], removed = []\<rparr>, em_version = 4\<rparr>,
        \<lparr>em_subscriber = 1, em_delta = \<lparr>added = [], removed = []\<rparr>, em_version = 5\<rparr>]
   \<and> pub_version (fst (run [Subscribe (0::nat), Subscribe 1]
         (createMapArrayRemoteSubscribable ([] :: string MapArray)))) = 1
   \<and> pub_version (fst (run [Subscribe (0::nat), Subscribe 1, Change [(''a'', ''A'')]]
         (createMapArrayRemoteSubscribable []))) = 3"
  by (simp add: createMapArrayRemoteSubscribable_def
      pub_subscribe_def update_def emit_def compute_delta_def Let_def)

text \<open>
  What this does to a stateful subscribable that is not the only subscriber of its
  publisher: its listener expects the local version plus 1, so it finds a mismatch at
  every change and fetches the whole collection each time.
\<close>

lemma second_subscriber_desyncs_remote:
  "remote (sys_update [(''a'', ''A'')]
      (makeStatefulListSubscribable
        (fst (pub_subscribe (OtherFn 0) (createMapArrayRemoteSubscribable [])))
       :: (string, nat) system))
     = \<lparr>current = [(''a'', ''A''), (''a'', ''A'')], version = 3, listening = True,
        subscribers = []\<rparr>
   \<and> listener_begin (DeltaPayload \<lparr>added = [(''a'', ''A'')], removed = []\<rparr>) 3 True
       (\<lparr>current = [], version = 1, listening = True, subscribers = []\<rparr>
          :: (string, nat) reconciler)
     = AwaitGetCurrent \<lparr>current = [], version = 2, listening = True, subscribers = []\<rparr>"
  by (simp add: sys_update_def makeStatefulListSubscribable_def createMapArrayRemoteSubscribable_def
      pub_subscribe_def update_def emit_def compute_delta_def getCurrent_def listener_def
      listener_begin_def listener_resume_def listener_apply_def Let_def)



text \<open>
  C9, as amended. The \<open>teardown\<close> that the publisher's \<open>subscribe\<close> returns, called in
  any later state of the host, first unsubscribes its arrow function from the source
  and then releases the subscriber, and does nothing else: the calls made are the
  source's \<open>unsubscribe\<close> followed by \<open>release\<close>, and the source loses that listener
  only. \<open>subscribe\<close> itself retains the subscriber and then subscribes to the source.
\<close>

theorem teardown_unsubscribes_then_releases:
  "effects (teardown (fst (snd (pub_subscribe c h))) h') =
     effects h' @ [SourceUnsubscribe (src_fresh h), Release (Fn c)]
   \<and> src_subscribers (teardown (fst (snd (pub_subscribe c h))) h') =
       filter (\<lambda>(w, _). w \<noteq> src_fresh h) (src_subscribers h')
   \<and> effects (fst (pub_subscribe c h)) = effects h @ [Retain (Fn c), SourceSubscribe (src_fresh h)]"
  by (simp add: pub_subscribe_def teardown_def Let_def)

text \<open>
  Against C9 as stated: the calls of a subscription followed by its teardown, in
  order. The release is the last one, after the source's \<open>unsubscribe\<close>.
\<close>

theorem teardown_order_counterexample:
  "effects (teardown (0, 0::nat) (fst (pub_subscribe 0
      (createMapArrayRemoteSubscribable ([] :: string MapArray)))))
     = [Retain (Fn 0), SourceSubscribe 0, SourceUnsubscribe 0, Release (Fn 0)]
   \<and> fst (snd (pub_subscribe (0::nat) (createMapArrayRemoteSubscribable ([] :: string MapArray))))
       = (0, 0)"
  by (simp add: createMapArrayRemoteSubscribable_def pub_subscribe_def teardown_def Let_def)

section \<open>Host and remote together: the round trip\<close>

text \<open>
  C1. A round trip, evaluated. The publisher is made over the one entry \<open>x\<close>, the
  stateful subscribable is made from it, and the collection of the host becomes empty
  and then holds \<open>x\<close> again; both deltas reach the listener, in order. The versions of
  host and remote agree at 3, so the remote never resynchronises, but the host holds
  \<open>x\<close> and the remote's \<open>current\<close> is empty: the second delta was computed against the
  collection at construction and adds nothing.
\<close>

theorem round_trip_remote_diverges:
  "src_current (host (sys_update [(''x'', ''First'')] (sys_update []
      (makeStatefulListSubscribable (createMapArrayRemoteSubscribable [(''x'', ''First'')])
        :: (string, nat) system)))) = [(''x'', ''First'')]
   \<and> current (remote (sys_update [(''x'', ''First'')] (sys_update []
      (makeStatefulListSubscribable (createMapArrayRemoteSubscribable [(''x'', ''First'')])
        :: (string, nat) system)))) = []
   \<and> version (remote (sys_update [(''x'', ''First'')] (sys_update []
      (makeStatefulListSubscribable (createMapArrayRemoteSubscribable [(''x'', ''First'')])
        :: (string, nat) system)))) = 3
   \<and> pub_version (host (sys_update [(''x'', ''First'')] (sys_update []
      (makeStatefulListSubscribable (createMapArrayRemoteSubscribable [(''x'', ''First'')])
        :: (string, nat) system)))) = 3"
  by (simp add: sys_update_def makeStatefulListSubscribable_def createMapArrayRemoteSubscribable_def
      pub_subscribe_def update_def emit_def compute_delta_def getCurrent_def listener_def
      listener_begin_def listener_apply_def Let_def)

end
